theory Spec2Isabelle
  imports Complex_Main
begin

section \<open>The ellipse of \<open>lib/ellipse.js\<close> over the exact reals\<close>

text \<open>
  The JavaScript numbers of the source are modelled as exact reals: every theorem below
  is a statement of exact real arithmetic, and the rounding of floating point is outside
  the model. JavaScript raises nothing on an undefined arithmetic operation: a division
  by zero gives \<open>Infinity\<close> or \<open>NaN\<close>, \<open>Math.sqrt\<close> of a negative number gives \<open>NaN\<close>,
  and a missing array entry is \<open>undefined\<close> and becomes \<open>NaN\<close> in arithmetic. None of
  these is a real number, so the model returns the cause as an \<open>Inl\<close> value at the
  first operation that leaves the reals.
\<close>

datatype nonfinite = DivisionByZero | SqrtOfNegative | MissingEntry

definition and_then :: "nonfinite + 'a \<Rightarrow> ('a \<Rightarrow> nonfinite + 'b) \<Rightarrow> nonfinite + 'b" where
  "and_then r f = (case r of Inl err \<Rightarrow> Inl err | Inr v \<Rightarrow> f v)"

definition js_div :: "real \<Rightarrow> real \<Rightarrow> nonfinite + real" where
  "js_div a b = (if b = 0 then Inl DivisionByZero else Inr (a / b))"

definition js_sqrt :: "real \<Rightarrow> nonfinite + real" where
  "js_sqrt x = (if x < 0 then Inl SqrtOfNegative else Inr (sqrt x))"

text \<open>
  The remainder \<open>a % b\<close> of JavaScript for a divisor \<open>b\<close> other than zero: the quotient
  is truncated towards zero, so the result has the sign of \<open>a\<close>. The source only
  takes \<open>% 180\<close>.
\<close>

definition js_rem :: "real \<Rightarrow> real \<Rightarrow> real" where
  "js_rem a b = a - b * of_int (if 0 \<le> a / b then \<lfloor>a / b\<rfloor> else \<lceil>a / b\<rceil>)"

definition torad :: real where
  "torad = pi / 180"

record ellipse =
  rx :: real
  ry :: real
  ax :: real
  epsilon :: real

text \<open>
  The constructor. The precision is optional; when it is given, the source builds the
  string \<open>'1e' + (-precision)\<close> and reads it as a number, which for an integer
  precision is the power of ten with the opposite exponent.
\<close>

definition Ellipse :: "real \<Rightarrow> real \<Rightarrow> real \<Rightarrow> int option \<Rightarrow> ellipse" where
  "Ellipse r1 r2 a precision =
     \<lparr>rx = r1, ry = r2, ax = a,
      epsilon = (case precision of None \<Rightarrow> 1 / 10 ^ 7 | Some p \<Rightarrow> 10 powi (- p))\<rparr>"

subsection \<open>transform\<close>

text \<open>The matrix \<open>ma = m x rotate(ax) x scale(rx,ry)\<close>, as the array of the source.\<close>

definition tr_ma :: "ellipse \<Rightarrow> real list \<Rightarrow> real list" where
  "tr_ma e m =
     (let c = cos (ax e * torad); s = sin (ax e * torad)
      in [rx e * (m ! 0 * c + m ! 2 * s),
          rx e * (m ! 1 * c + m ! 3 * s),
          ry e * (- (m ! 0) * s + m ! 2 * c),
          ry e * (- (m ! 1) * s + m ! 3 * c)])"

text \<open>The entries \<open>J\<close>, \<open>K\<close>, \<open>L\<close> of \<open>ma * transpose(ma)\<close>.\<close>

definition J_of :: "real list \<Rightarrow> real" where
  "J_of ma = ma ! 0 * ma ! 0 + ma ! 2 * ma ! 2"

definition K_of :: "real list \<Rightarrow> real" where
  "K_of ma = ma ! 1 * ma ! 1 + ma ! 3 * ma ! 3"

definition L_of :: "real list \<Rightarrow> real" where
  "L_of ma = ma ! 0 * ma ! 1 + ma ! 2 * ma ! 3"

text \<open>The argument of the square root that gives \<open>D\<close>, and \<open>D\<close> itself.\<close>

definition D_arg :: "real list \<Rightarrow> real" where
  "D_arg ma =
     ((ma ! 0 - ma ! 3) * (ma ! 0 - ma ! 3) + (ma ! 2 + ma ! 1) * (ma ! 2 + ma ! 1)) *
     ((ma ! 0 + ma ! 3) * (ma ! 0 + ma ! 3) + (ma ! 2 - ma ! 1) * (ma ! 2 - ma ! 1))"

definition D_of :: "real list \<Rightarrow> real" where
  "D_of ma = sqrt (D_arg ma)"

definition JK_of :: "real list \<Rightarrow> real" where
  "JK_of ma = (J_of ma + K_of ma) / 2"

definition l1_of :: "real list \<Rightarrow> real" where
  "l1_of ma = JK_of ma + D_of ma / 2"

definition l2_of :: "real list \<Rightarrow> real" where
  "l2_of ma = JK_of ma - D_of ma / 2"

definition transform :: "ellipse \<Rightarrow> real list \<Rightarrow> nonfinite + ellipse" where
  "transform e m =
     (if length m < 4 then Inl MissingEntry
      else
        let ma = tr_ma e m; J = J_of ma; K = K_of ma
        in and_then (js_sqrt (D_arg ma)) (\<lambda>D.
           let JK = (J + K) / 2
           in if D \<le> epsilon e then
                and_then (js_sqrt JK) (\<lambda>r. Inr (e\<lparr>rx := r, ry := r, ax := 0\<rparr>))
              else if \<bar>D - \<bar>J - K\<bar>\<bar> \<le> epsilon e then
                and_then (js_sqrt J) (\<lambda>rj.
                and_then (js_sqrt K) (\<lambda>rk. Inr (e\<lparr>rx := rj, ry := rk, ax := 0\<rparr>)))
              else
                let L = L_of ma; l1 = JK + D / 2; l2 = JK - D / 2
                in if \<bar>L\<bar> \<le> epsilon e \<and> \<bar>l1 - K\<bar> \<le> epsilon e then
                     and_then (js_sqrt l2) (\<lambda>r2.
                     and_then (js_sqrt l1) (\<lambda>r1. Inr (e\<lparr>ax := 0, rx := r2, ry := r1\<rparr>)))
                   else
                     and_then (if \<bar>L\<bar> > \<bar>l1 - K\<bar> then js_div (l1 - J) L
                               else js_div L (l1 - K)) (\<lambda>q.
                     let a = arctan q / torad
                     in if a \<ge> 0 then
                          and_then (js_sqrt l1) (\<lambda>r1.
                          and_then (js_sqrt l2) (\<lambda>r2. Inr (e\<lparr>ax := a, rx := r1, ry := r2\<rparr>)))
                        else
                          and_then (js_sqrt l2) (\<lambda>r2.
                          and_then (js_sqrt l1) (\<lambda>r1.
                            Inr (e\<lparr>ax := a + 90, rx := r2, ry := r1\<rparr>))))))"

subsection \<open>isDegenerate\<close>

definition isDegenerate :: "ellipse \<Rightarrow> bool" where
  "isDegenerate e \<longleftrightarrow> \<bar>rx e\<bar> \<le> epsilon e \<or> \<bar>ry e\<bar> \<le> epsilon e"

subsection \<open>normalise\<close>

text \<open>
  The first half of \<open>normalise\<close>, up to the test of the vector: radii made non-negative,
  a near circle made a circle, the angle of any other ellipse brought into \<open>[0,90[\<close>.
\<close>

definition canonical :: "ellipse \<Rightarrow> ellipse" where
  "canonical e =
     (let e1 = e\<lparr>rx := \<bar>rx e\<bar>\<rparr>;
          e2 = e1\<lparr>ry := \<bar>ry e1\<bar>\<rparr>
      in if \<bar>rx e2 - ry e2\<bar> \<le> epsilon e2 then
           (let r = (rx e2 + ry e2) / 2 in e2\<lparr>ax := 0, ry := r, rx := r\<rparr>)
         else
           let e3 = e2\<lparr>ax := js_rem (ax e2) 180\<rparr>;
               e4 = (if ax e3 < 0 then e3\<lparr>ax := ax e3 + 180\<rparr> else e3)
           in if ax e4 \<ge> 90 then
                (let tempr = rx e4 in e4\<lparr>rx := ry e4, ry := tempr, ax := ax e4 - 90\<rparr>)
              else e4)"

text \<open>The factor \<open>k\<close> of the second half: how far \<open>(dx,dy)\<close> is outside the ellipse.\<close>

definition scale_k :: "ellipse \<Rightarrow> real \<Rightarrow> real \<Rightarrow> nonfinite + real" where
  "scale_k e dx dy =
     (let c = cos (ax e * torad); s = sin (- ax e * torad)
      in and_then (js_div (dx * c - dy * s) (rx e)) (\<lambda>ndx.
         and_then (js_div (dx * s + dy * c) (ry e)) (\<lambda>ndy.
         js_sqrt (ndx * ndx + ndy * ndy))))"

text \<open>
  An argument left out is \<open>undefined\<close>, which the test \<open>!dx && !dy\<close> takes like zero:
  the call \<open>normalise()\<close> is \<open>normalise e 0 0\<close>.
\<close>

definition normalise :: "ellipse \<Rightarrow> real \<Rightarrow> real \<Rightarrow> nonfinite + ellipse" where
  "normalise e dx dy =
     (let e1 = canonical e
      in if dx = 0 \<and> dy = 0 then Inr e1
         else and_then (scale_k e1 dx dy) (\<lambda>k.
              if k > 1 then Inr (e1\<lparr>rx := rx e1 * k, ry := ry e1 * k\<rparr>) else Inr e1))"



section \<open>The two methods over any arithmetic\<close>

text \<open>
  What the methods assign and what they return does not depend on what the arithmetic
  computes. The second transcription below is over any type of numbers \<open>'n\<close> and any
  operations on it, given as a record: the literals, \<open>Math.PI\<close>, the value \<open>undefined\<close>,
  the arithmetic operators and \<open>%\<close>, the functions of \<open>Math\<close>, the comparisons, and
  the test \<open>!x\<close>. The double precision numbers of JavaScript with their \<open>NaN\<close> and
  infinities are one such arithmetic, the exact reals are another. Nothing fails in this
  transcription: a division by zero or a root of a negative number gives whatever the
  arithmetic gives, as in the source.
\<close>

record 'n arith =
  op_lit :: "real \<Rightarrow> 'n"
  op_pi :: 'n
  op_undefined :: 'n
  op_add :: "'n \<Rightarrow> 'n \<Rightarrow> 'n"
  op_sub :: "'n \<Rightarrow> 'n \<Rightarrow> 'n"
  op_mul :: "'n \<Rightarrow> 'n \<Rightarrow> 'n"
  op_div :: "'n \<Rightarrow> 'n \<Rightarrow> 'n"
  op_rem :: "'n \<Rightarrow> 'n \<Rightarrow> 'n"
  op_neg :: "'n \<Rightarrow> 'n"
  op_abs :: "'n \<Rightarrow> 'n"
  op_sqrt :: "'n \<Rightarrow> 'n"
  op_cos :: "'n \<Rightarrow> 'n"
  op_sin :: "'n \<Rightarrow> 'n"
  op_atan :: "'n \<Rightarrow> 'n"
  op_le :: "'n \<Rightarrow> 'n \<Rightarrow> bool"
  op_lt :: "'n \<Rightarrow> 'n \<Rightarrow> bool"
  op_ge :: "'n \<Rightarrow> 'n \<Rightarrow> bool"
  op_gt :: "'n \<Rightarrow> 'n \<Rightarrow> bool"
  op_not :: "'n \<Rightarrow> bool"

record 'n js_ellipse =
  obj_rx :: 'n
  obj_ry :: 'n
  obj_ax :: 'n
  obj_epsilon :: 'n

text \<open>An array entry: \<open>m[i]\<close> is \<open>undefined\<close> beyond the end of the array.\<close>

definition entry :: "'n arith \<Rightarrow> 'n list \<Rightarrow> nat \<Rightarrow> 'n" where
  "entry A m i = (if i < length m then m ! i else op_undefined A)"

definition js_torad :: "'n arith \<Rightarrow> 'n" where
  "js_torad A = op_div A (op_pi A) (op_lit A 180)"

definition js_ma :: "'n arith \<Rightarrow> 'n js_ellipse \<Rightarrow> 'n list \<Rightarrow> 'n list" where
  "js_ma A this m =
     (let add = op_add A; mul = op_mul A;
          c = op_cos A (mul (obj_ax this) (js_torad A));
          s = op_sin A (mul (obj_ax this) (js_torad A))
      in [mul (obj_rx this) (add (mul (entry A m 0) c) (mul (entry A m 2) s)),
          mul (obj_rx this) (add (mul (entry A m 1) c) (mul (entry A m 3) s)),
          mul (obj_ry this) (add (mul (op_neg A (entry A m 0)) s) (mul (entry A m 2) c)),
          mul (obj_ry this) (add (mul (op_neg A (entry A m 1)) s) (mul (entry A m 3) c))])"

definition js_J :: "'n arith \<Rightarrow> 'n list \<Rightarrow> 'n" where
  "js_J A ma = op_add A (op_mul A (ma ! 0) (ma ! 0)) (op_mul A (ma ! 2) (ma ! 2))"

definition js_K :: "'n arith \<Rightarrow> 'n list \<Rightarrow> 'n" where
  "js_K A ma = op_add A (op_mul A (ma ! 1) (ma ! 1)) (op_mul A (ma ! 3) (ma ! 3))"

definition js_L :: "'n arith \<Rightarrow> 'n list \<Rightarrow> 'n" where
  "js_L A ma = op_add A (op_mul A (ma ! 0) (ma ! 1)) (op_mul A (ma ! 2) (ma ! 3))"

definition js_D :: "'n arith \<Rightarrow> 'n list \<Rightarrow> 'n" where
  "js_D A ma =
     (let add = op_add A; sub = op_sub A; mul = op_mul A
      in op_sqrt A
           (mul (add (mul (sub (ma ! 0) (ma ! 3)) (sub (ma ! 0) (ma ! 3)))
                     (mul (add (ma ! 2) (ma ! 1)) (add (ma ! 2) (ma ! 1))))
                (add (mul (add (ma ! 0) (ma ! 3)) (add (ma ! 0) (ma ! 3)))
                     (mul (sub (ma ! 2) (ma ! 1)) (sub (ma ! 2) (ma ! 1))))))"

definition js_transform :: "'n arith \<Rightarrow> 'n js_ellipse \<Rightarrow> 'n list \<Rightarrow> 'n js_ellipse" where
  "js_transform A this m =
     (let add = op_add A; sub = op_sub A; quo = op_div A;
          ma = js_ma A this m;
          J = js_J A ma;
          K = js_K A ma;
          D = js_D A ma;
          JK = quo (add J K) (op_lit A 2)
      in if op_le A D (obj_epsilon this) then
           (let r = op_sqrt A JK in this\<lparr>obj_ry := r, obj_rx := r, obj_ax := op_lit A 0\<rparr>)
         else if op_le A (op_abs A (sub D (op_abs A (sub J K)))) (obj_epsilon this) then
           this\<lparr>obj_rx := op_sqrt A J, obj_ry := op_sqrt A K, obj_ax := op_lit A 0\<rparr>
         else
           let L = js_L A ma;
               l1 = add JK (quo D (op_lit A 2));
               l2 = sub JK (quo D (op_lit A 2))
           in if op_le A (op_abs A L) (obj_epsilon this) \<and>
                 op_le A (op_abs A (sub l1 K)) (obj_epsilon this) then
                this\<lparr>obj_ax := op_lit A 0, obj_rx := op_sqrt A l2, obj_ry := op_sqrt A l1\<rparr>
              else
                let a = quo (op_atan A (if op_gt A (op_abs A L) (op_abs A (sub l1 K))
                                        then quo (sub l1 J) L
                                        else quo L (sub l1 K)))
                            (js_torad A)
                in if op_ge A a (op_lit A 0) then
                     this\<lparr>obj_ax := a, obj_rx := op_sqrt A l1, obj_ry := op_sqrt A l2\<rparr>
                   else
                     this\<lparr>obj_ax := add a (op_lit A 90), obj_rx := op_sqrt A l2,
                          obj_ry := op_sqrt A l1\<rparr>)"

text \<open>\<open>normalise\<close>, in the same three parts as over the reals.\<close>

definition js_canonical :: "'n arith \<Rightarrow> 'n js_ellipse \<Rightarrow> 'n js_ellipse" where
  "js_canonical A this =
     (let t1 = this\<lparr>obj_rx := op_abs A (obj_rx this)\<rparr>;
          t2 = t1\<lparr>obj_ry := op_abs A (obj_ry t1)\<rparr>
      in if op_le A (op_abs A (op_sub A (obj_rx t2) (obj_ry t2))) (obj_epsilon t2) then
           (let r = op_div A (op_add A (obj_rx t2) (obj_ry t2)) (op_lit A 2)
            in t2\<lparr>obj_ax := op_lit A 0, obj_ry := r, obj_rx := r\<rparr>)
         else
           let t3 = t2\<lparr>obj_ax := op_rem A (obj_ax t2) (op_lit A 180)\<rparr>;
               t4 = (if op_lt A (obj_ax t3) (op_lit A 0)
                     then t3\<lparr>obj_ax := op_add A (obj_ax t3) (op_lit A 180)\<rparr> else t3)
           in if op_ge A (obj_ax t4) (op_lit A 90) then
                (let tempr = obj_rx t4
                 in t4\<lparr>obj_rx := obj_ry t4, obj_ry := tempr,
                       obj_ax := op_sub A (obj_ax t4) (op_lit A 90)\<rparr>)
              else t4)"

definition js_scale_k :: "'n arith \<Rightarrow> 'n js_ellipse \<Rightarrow> 'n \<Rightarrow> 'n \<Rightarrow> 'n" where
  "js_scale_k A this dx dy =
     (let add = op_add A; sub = op_sub A; mul = op_mul A; quo = op_div A;
          c = op_cos A (mul (obj_ax this) (js_torad A));
          s = op_sin A (mul (op_neg A (obj_ax this)) (js_torad A));
          ndx = quo (sub (mul dx c) (mul dy s)) (obj_rx this);
          ndy = quo (add (mul dx s) (mul dy c)) (obj_ry this)
      in op_sqrt A (add (mul ndx ndx) (mul ndy ndy)))"

definition js_normalise :: "'n arith \<Rightarrow> 'n js_ellipse \<Rightarrow> 'n \<Rightarrow> 'n \<Rightarrow> 'n js_ellipse" where
  "js_normalise A this dx dy =
     (let t = js_canonical A this
      in if op_not A dx \<and> op_not A dy then t
         else
           let k = js_scale_k A t dx dy
           in if op_gt A k (op_lit A 1) then
                t\<lparr>obj_rx := op_mul A (obj_rx t) k, obj_ry := op_mul A (obj_ry t) k\<rparr>
              else t)"

text \<open>
  Both methods assign to the fields of \<open>this\<close> and end with \<open>return this\<close>. On a store
  of ellipse objects a call takes the store and the reference of the receiver, and gives
  the new store and the reference it returns.
\<close>

type_synonym 'n store = "nat \<Rightarrow> 'n js_ellipse"

definition method_transform :: "'n arith \<Rightarrow> 'n store \<Rightarrow> nat \<Rightarrow> 'n list \<Rightarrow> 'n store \<times> nat" where
  "method_transform A h this m = (h(this := js_transform A (h this) m), this)"

definition method_normalise :: "'n arith \<Rightarrow> 'n store \<Rightarrow> nat \<Rightarrow> 'n \<Rightarrow> 'n \<Rightarrow> 'n store \<times> nat" where
  "method_normalise A h this dx dy = (h(this := js_normalise A (h this) dx dy), this)"

text \<open>
  The arithmetic of the exact reals, and an ellipse of the first transcription as an
  object of the second. Where the first transcription returns an ellipse, the second
  returns the same one (lemmas \<open>js_transform_exact\<close> and \<open>js_normalise_exact\<close> below);
  the value \<open>undefined\<close> is not a real and is never read from an array of four
  entries.
\<close>

definition exact_arith :: "real arith" where
  "exact_arith =
     \<lparr>op_lit = (\<lambda>x. x), op_pi = pi, op_undefined = 0,
      op_add = (+), op_sub = (-), op_mul = (*), op_div = (/), op_rem = js_rem,
      op_neg = uminus, op_abs = abs, op_sqrt = sqrt, op_cos = cos, op_sin = sin,
      op_atan = arctan, op_le = (\<le>), op_lt = (<), op_ge = (\<ge>), op_gt = (>),
      op_not = (\<lambda>x. x = 0)\<rparr>"

definition js_of :: "ellipse \<Rightarrow> real js_ellipse" where
  "js_of e = \<lparr>obj_rx = rx e, obj_ry = ry e, obj_ax = ax e, obj_epsilon = epsilon e\<rparr>"

section \<open>Basic facts\<close>

lemma and_then_Inr [simp]: "and_then (Inr v) f = f v"
  by (simp add: and_then_def)

lemma and_then_Inl [simp]: "and_then (Inl err) f = Inl err"
  by (simp add: and_then_def)

lemma js_sqrt_nonneg [simp]: "0 \<le> x \<Longrightarrow> js_sqrt x = Inr (sqrt x)"
  by (simp add: js_sqrt_def)

lemma js_div_nonzero [simp]: "b \<noteq> 0 \<Longrightarrow> js_div a b = Inr (a / b)"
  by (simp add: js_div_def)

lemma js_div_zero [simp]: "js_div a 0 = Inl DivisionByZero"
  by (simp add: js_div_def)

lemma torad_pos: "0 < torad"
  by (simp add: torad_def)

lemma J_of_nonneg: "0 \<le> J_of ma"
  by (simp add: J_of_def)

lemma K_of_nonneg: "0 \<le> K_of ma"
  by (simp add: K_of_def)

lemma JK_of_nonneg: "0 \<le> JK_of ma"
  using J_of_nonneg [of ma] K_of_nonneg [of ma] by (simp add: JK_of_def)

lemma D_arg_nonneg: "0 \<le> D_arg ma"
  unfolding D_arg_def by (intro mult_nonneg_nonneg add_nonneg_nonneg zero_le_square)

lemma D_of_nonneg: "0 \<le> D_of ma"
  by (simp add: D_of_def D_arg_nonneg)

lemma D_arg_eq: "D_arg ma = (J_of ma - K_of ma)\<^sup>2 + 4 * (L_of ma)\<^sup>2"
  by (simp add: D_arg_def J_of_def K_of_def L_of_def power2_eq_square algebra_simps)

lemma D_arg_le: "D_arg ma \<le> (J_of ma + K_of ma)\<^sup>2"
proof -
  have "(J_of ma + K_of ma)\<^sup>2 - D_arg ma = 4 * (ma ! 0 * ma ! 3 - ma ! 1 * ma ! 2)\<^sup>2"
    by (simp add: D_arg_def J_of_def K_of_def power2_eq_square algebra_simps)
  moreover have "0 \<le> 4 * (ma ! 0 * ma ! 3 - ma ! 1 * ma ! 2)\<^sup>2" by simp
  ultimately show ?thesis by linarith
qed

lemma D_of_le: "D_of ma \<le> J_of ma + K_of ma"
proof -
  have "sqrt (D_arg ma) \<le> sqrt ((J_of ma + K_of ma)\<^sup>2)"
    using D_arg_le by (rule real_sqrt_le_mono)
  also have "\<dots> = J_of ma + K_of ma"
    using J_of_nonneg [of ma] K_of_nonneg [of ma] by simp
  finally show ?thesis by (simp add: D_of_def)
qed

lemma l2_of_nonneg: "0 \<le> l2_of ma"
  using D_of_le [of ma] by (simp add: l2_of_def JK_of_def)

lemma l1_of_nonneg: "0 \<le> l1_of ma"
  using D_of_nonneg [of ma] JK_of_nonneg [of ma] by (simp add: l1_of_def)

subsection \<open>The canonical form of normalise\<close>

lemma js_rem_180_nonneg: "0 \<le> a \<Longrightarrow> 0 \<le> js_rem a 180 \<and> js_rem a 180 < 180"
proof -
  assume a: "0 \<le> a"
  define n where "n = \<lfloor>a / 180\<rfloor>"
  have "real_of_int n \<le> a / 180" "a / 180 < real_of_int n + 1"
    unfolding n_def by linarith+
  then have "180 * real_of_int n \<le> a" "a < 180 * real_of_int n + 180"
    by linarith+
  moreover have "js_rem a 180 = a - 180 * real_of_int n"
    using a by (simp add: js_rem_def n_def)
  ultimately show ?thesis by linarith
qed

lemma js_rem_180_neg: "a < 0 \<Longrightarrow> - 180 < js_rem a 180 \<and> js_rem a 180 \<le> 0"
proof -
  assume a: "a < 0"
  define n where "n = \<lceil>a / 180\<rceil>"
  have "a / 180 \<le> real_of_int n" "real_of_int n < a / 180 + 1"
    unfolding n_def by linarith+
  then have "a \<le> 180 * real_of_int n" "180 * real_of_int n < a + 180"
    by linarith+
  moreover have "js_rem a 180 = a - 180 * real_of_int n"
    using a by (simp add: js_rem_def n_def)
  ultimately show ?thesis by linarith
qed

lemma js_rem_180_id: "0 \<le> a \<Longrightarrow> a < 180 \<Longrightarrow> js_rem a 180 = a"
proof -
  assume a: "0 \<le> a" "a < 180"
  then have "\<lfloor>a / 180\<rfloor> = 0" by (simp add: floor_eq_iff)
  with a show ?thesis by (simp add: js_rem_def)
qed

lemma canonical_epsilon [simp]: "epsilon (canonical e) = epsilon e"
  by (simp add: canonical_def Let_def)


lemma canonical_radii_nonneg: "0 \<le> rx (canonical e) \<and> 0 \<le> ry (canonical e)"
  by (simp add: canonical_def Let_def)

lemma canonical_angle_range:
  "\<not> \<bar>\<bar>rx e\<bar> - \<bar>ry e\<bar>\<bar> \<le> epsilon e \<Longrightarrow> 0 \<le> ax (canonical e) \<and> ax (canonical e) < 90"
  using js_rem_180_nonneg [of "ax e"] js_rem_180_neg [of "ax e"]
  by (cases "0 \<le> ax e") (auto simp add: canonical_def Let_def)

lemma canonical_gap:
  "\<not> \<bar>\<bar>rx e\<bar> - \<bar>ry e\<bar>\<bar> \<le> epsilon e \<Longrightarrow>
   \<bar>rx (canonical e) - ry (canonical e)\<bar> = \<bar>\<bar>rx e\<bar> - \<bar>ry e\<bar>\<bar>"
  by (simp add: canonical_def Let_def abs_minus_commute)

lemma canonical_idem: "canonical (canonical e) = canonical e"
proof (cases "\<bar>\<bar>rx e\<bar> - \<bar>ry e\<bar>\<bar> \<le> epsilon e")
  case True
  then have "0 \<le> epsilon e" by linarith
  with True show ?thesis by (simp add: canonical_def Let_def)
next
  case False
  let ?c = "canonical e"
  have r: "0 \<le> rx ?c" "0 \<le> ry ?c" using canonical_radii_nonneg [of e] by simp_all
  have g: "\<not> \<bar>rx ?c - ry ?c\<bar> \<le> epsilon ?c" using False canonical_gap [of e] by simp
  have a: "0 \<le> ax ?c" "ax ?c < 90" using canonical_angle_range [OF False] by simp_all
  then have "js_rem (ax ?c) 180 = ax ?c" by (simp add: js_rem_180_id)
  with r g a show ?thesis
    by (simp add: canonical_def [of ?c] Let_def)
qed

subsection \<open>The scaling step of normalise\<close>

lemma scale_k_defined:
  "rx e \<noteq> 0 \<Longrightarrow> ry e \<noteq> 0 \<Longrightarrow>
   scale_k e dx dy =
     Inr (sqrt (((dx * cos (ax e * torad) - dy * sin (- ax e * torad)) / rx e)\<^sup>2 +
                ((dx * sin (- ax e * torad) + dy * cos (ax e * torad)) / ry e)\<^sup>2))"
  by (simp add: scale_k_def Let_def power2_eq_square)

lemma scale_k_undefined:
  "rx e = 0 \<or> ry e = 0 \<Longrightarrow> scale_k e dx dy = Inl DivisionByZero"
  by (auto simp add: scale_k_def Let_def js_div_def)

lemma scale_k_nonneg: "scale_k e dx dy = Inr k \<Longrightarrow> 0 \<le> k"
  by (cases "rx e = 0 \<or> ry e = 0") (auto simp add: scale_k_undefined scale_k_defined)

lemma scale_k_scaled:
  assumes "rx e \<noteq> 0" "ry e \<noteq> 0" "scale_k e dx dy = Inr k" "0 < k"
  shows "scale_k (e\<lparr>rx := rx e * k, ry := ry e * k\<rparr>) dx dy = Inr 1"
proof -
  define A where "A = dx * cos (ax e * torad) - dy * sin (- ax e * torad)"
  define B where "B = dx * sin (- ax e * torad) + dy * cos (ax e * torad)"
  let ?e' = "e\<lparr>rx := rx e * k, ry := ry e * k\<rparr>"
  have "scale_k e dx dy = Inr (sqrt ((A / rx e)\<^sup>2 + (B / ry e)\<^sup>2))"
    unfolding A_def B_def using assms(1,2) by (rule scale_k_defined)
  with assms(3) have k: "k = sqrt ((A / rx e)\<^sup>2 + (B / ry e)\<^sup>2)"
    by simp
  have "scale_k ?e' dx dy = Inr (sqrt ((A / (rx e * k))\<^sup>2 + (B / (ry e * k))\<^sup>2))"
    using scale_k_defined [of ?e' dx dy] assms(1,2,4) by (simp add: A_def B_def)
  also have "(A / (rx e * k))\<^sup>2 + (B / (ry e * k))\<^sup>2
             = ((A / rx e)\<^sup>2 + (B / ry e)\<^sup>2) / k\<^sup>2"
    by (simp add: power_divide power_mult_distrib add_divide_distrib)
  also have "(A / rx e)\<^sup>2 + (B / ry e)\<^sup>2 = k\<^sup>2"
    using k by simp
  also have "k\<^sup>2 / k\<^sup>2 = 1"
    using \<open>0 < k\<close> by simp
  finally show ?thesis by simp
qed

lemma normalise_no_vector: "normalise e 0 0 = Inr (canonical e)"
  by (simp add: normalise_def)

lemma normalise_undefined:
  "dx \<noteq> 0 \<or> dy \<noteq> 0 \<Longrightarrow> rx (canonical e) = 0 \<or> ry (canonical e) = 0 \<Longrightarrow>
   normalise e dx dy = Inl DivisionByZero"
  by (auto simp add: normalise_def Let_def scale_k_undefined)

lemma normalise_defined:
  assumes "rx (canonical e) \<noteq> 0" "ry (canonical e) \<noteq> 0" "dx \<noteq> 0 \<or> dy \<noteq> 0"
  shows "\<exists>k. scale_k (canonical e) dx dy = Inr k \<and> 0 \<le> k \<and>
           normalise e dx dy =
             Inr (if k > 1 then (canonical e)\<lparr>rx := rx (canonical e) * k, ry := ry (canonical e) * k\<rparr>
                  else canonical e)"
proof -
  obtain k where k: "scale_k (canonical e) dx dy = Inr k"
    using assms by (simp add: scale_k_defined)
  then have "0 \<le> k" by (rule scale_k_nonneg)
  with k assms show ?thesis by (auto simp add: normalise_def Let_def)
qed

subsection \<open>The branches of transform\<close>

lemma js_sqrt_D_arg [simp]: "js_sqrt (D_arg ma) = Inr (D_of ma)"
  by (simp add: D_arg_nonneg D_of_def)

lemma js_sqrt_J [simp]: "js_sqrt (J_of ma) = Inr (sqrt (J_of ma))"
  by (simp add: J_of_nonneg)

lemma js_sqrt_K [simp]: "js_sqrt (K_of ma) = Inr (sqrt (K_of ma))"
  by (simp add: K_of_nonneg)

lemma js_sqrt_JK [simp]: "js_sqrt ((J_of ma + K_of ma) / 2) = Inr (sqrt (JK_of ma))"
  using JK_of_nonneg [of ma] by (simp add: JK_of_def)

lemma js_sqrt_l1 [simp]: "js_sqrt (l1_of ma) = Inr (sqrt (l1_of ma))"
  by (simp add: l1_of_nonneg)

lemma js_sqrt_l2 [simp]: "js_sqrt (l2_of ma) = Inr (sqrt (l2_of ma))"
  by (simp add: l2_of_nonneg)

lemma l1_of_fold: "(J_of ma + K_of ma) / 2 + D_of ma / 2 = l1_of ma"
  by (simp add: l1_of_def JK_of_def)

lemma l2_of_fold: "(J_of ma + K_of ma) / 2 - D_of ma / 2 = l2_of ma"
  by (simp add: l2_of_def JK_of_def)

lemma transform_circle:
  assumes "4 \<le> length m" "D_of (tr_ma e m) \<le> epsilon e"
  shows "transform e m =
           Inr (e\<lparr>rx := sqrt (JK_of (tr_ma e m)), ry := sqrt (JK_of (tr_ma e m)), ax := 0\<rparr>)"
  using assms by (simp add: transform_def Let_def)

lemma transform_diagonal:
  assumes "4 \<le> length m" "\<not> D_of (tr_ma e m) \<le> epsilon e"
    "\<bar>D_of (tr_ma e m) - \<bar>J_of (tr_ma e m) - K_of (tr_ma e m)\<bar>\<bar> \<le> epsilon e"
  shows "transform e m =
           Inr (e\<lparr>rx := sqrt (J_of (tr_ma e m)), ry := sqrt (K_of (tr_ma e m)), ax := 0\<rparr>)"
  using assms by (simp add: transform_def Let_def)

lemma transform_exchange:
  assumes "4 \<le> length m" "\<not> D_of (tr_ma e m) \<le> epsilon e"
    "\<not> \<bar>D_of (tr_ma e m) - \<bar>J_of (tr_ma e m) - K_of (tr_ma e m)\<bar>\<bar> \<le> epsilon e"
    "\<bar>L_of (tr_ma e m)\<bar> \<le> epsilon e" "\<bar>l1_of (tr_ma e m) - K_of (tr_ma e m)\<bar> \<le> epsilon e"
  shows "transform e m =
           Inr (e\<lparr>ax := 0, rx := sqrt (l2_of (tr_ma e m)), ry := sqrt (l1_of (tr_ma e m))\<rparr>)"
  using assms by (simp add: transform_def Let_def l1_of_fold l2_of_fold)

lemma transform_general:
  assumes "4 \<le> length m" "0 \<le> epsilon e" "\<not> D_of (tr_ma e m) \<le> epsilon e"
    "\<not> \<bar>D_of (tr_ma e m) - \<bar>J_of (tr_ma e m) - K_of (tr_ma e m)\<bar>\<bar> \<le> epsilon e"
    "\<not> (\<bar>L_of (tr_ma e m)\<bar> \<le> epsilon e \<and> \<bar>l1_of (tr_ma e m) - K_of (tr_ma e m)\<bar> \<le> epsilon e)"
    "q = (if \<bar>L_of (tr_ma e m)\<bar> > \<bar>l1_of (tr_ma e m) - K_of (tr_ma e m)\<bar>
          then (l1_of (tr_ma e m) - J_of (tr_ma e m)) / L_of (tr_ma e m)
          else L_of (tr_ma e m) / (l1_of (tr_ma e m) - K_of (tr_ma e m)))"
  shows "transform e m =
           Inr (if arctan q / torad \<ge> 0
                then e\<lparr>ax := arctan q / torad, rx := sqrt (l1_of (tr_ma e m)),
                       ry := sqrt (l2_of (tr_ma e m))\<rparr>
                else e\<lparr>ax := arctan q / torad + 90, rx := sqrt (l2_of (tr_ma e m)),
                       ry := sqrt (l1_of (tr_ma e m))\<rparr>)"
proof -
  let ?ma = "tr_ma e m"
  show ?thesis
  proof (cases "\<bar>L_of ?ma\<bar> > \<bar>l1_of ?ma - K_of ?ma\<bar>")
    case True
    then have "L_of ?ma \<noteq> 0" by auto
    with True assms show ?thesis
      by (simp add: transform_def Let_def l1_of_fold l2_of_fold)
  next
    case False
    with assms(2,5) have "l1_of ?ma - K_of ?ma \<noteq> 0" by auto
    with False assms show ?thesis
      by (auto simp add: transform_def Let_def l1_of_fold l2_of_fold)
  qed
qed

lemma transform_total:
  assumes "4 \<le> length m" "0 \<le> epsilon e"
  shows "\<exists>e'. transform e m = Inr e'"
proof -
  let ?ma = "tr_ma e m"
  consider (a) "D_of ?ma \<le> epsilon e"
    | (b) "\<not> D_of ?ma \<le> epsilon e" "\<bar>D_of ?ma - \<bar>J_of ?ma - K_of ?ma\<bar>\<bar> \<le> epsilon e"
    | (c) "\<not> D_of ?ma \<le> epsilon e" "\<not> \<bar>D_of ?ma - \<bar>J_of ?ma - K_of ?ma\<bar>\<bar> \<le> epsilon e"
          "\<bar>L_of ?ma\<bar> \<le> epsilon e \<and> \<bar>l1_of ?ma - K_of ?ma\<bar> \<le> epsilon e"
    | (d) "\<not> D_of ?ma \<le> epsilon e" "\<not> \<bar>D_of ?ma - \<bar>J_of ?ma - K_of ?ma\<bar>\<bar> \<le> epsilon e"
          "\<not> (\<bar>L_of ?ma\<bar> \<le> epsilon e \<and> \<bar>l1_of ?ma - K_of ?ma\<bar> \<le> epsilon e)"
    by blast
  then show ?thesis
  proof cases
    case a
    with assms show ?thesis by (simp add: transform_circle)
  next
    case b
    with assms show ?thesis by (simp add: transform_diagonal)
  next
    case c
    with assms show ?thesis by (simp add: transform_exchange)
  next
    case d
    with assms show ?thesis by (simp add: transform_general [OF _ _ _ _ _ refl])
  qed
qed

subsection \<open>Further facts on the angle and the radii\<close>

lemma arctan_degrees: "- 90 < arctan q / torad \<and> arctan q / torad < 90"
proof -
  have "- (pi / 2) < arctan q" "arctan q < pi / 2"
    by (rule arctan_lbound, rule arctan_ubound)
  moreover have "0 < pi" by (rule pi_gt_zero)
  ultimately show ?thesis
    by (simp add: torad_def field_simps)
qed

lemma Ellipse_epsilon_pos: "0 < epsilon (Ellipse r1 r2 a precision)"
  by (cases precision) (simp_all add: Ellipse_def)

lemma radius_grows: "0 \<le> (r::real) \<Longrightarrow> 1 < k \<Longrightarrow> r \<le> r * k"
  using mult_left_mono [of 1 k r] by simp

lemma canonical_radii_nonzero:
  "rx e \<noteq> 0 \<Longrightarrow> ry e \<noteq> 0 \<Longrightarrow> rx (canonical e) \<noteq> 0 \<and> ry (canonical e) \<noteq> 0"
  by (auto simp add: canonical_def Let_def)



section \<open>The fields that the methods leave alone\<close>

lemma transform_epsilon: "transform e m = Inr e' \<Longrightarrow> epsilon e' = epsilon e"
  by (auto simp add: transform_def Let_def l1_of_fold l2_of_fold js_div_def
      split: if_splits)

lemma transform_no_sqrt_failure: "transform e m \<noteq> Inl SqrtOfNegative"
  by (auto simp add: transform_def Let_def l1_of_fold l2_of_fold js_div_def
      split: if_splits)

lemma normalise_epsilon: "normalise e dx dy = Inr e' \<Longrightarrow> epsilon e' = epsilon e"
  by (auto simp add: normalise_def Let_def and_then_def split: if_splits sum.splits)

section \<open>The two transcriptions agree\<close>

lemma js_transform_epsilon: "obj_epsilon (js_transform A this m) = obj_epsilon this"
  by (simp add: js_transform_def Let_def)

lemma js_canonical_epsilon: "obj_epsilon (js_canonical A this) = obj_epsilon this"
  by (simp add: js_canonical_def Let_def)

lemma js_normalise_epsilon: "obj_epsilon (js_normalise A this dx dy) = obj_epsilon this"
  by (simp add: js_normalise_def js_canonical_epsilon Let_def)

lemma exact_arith_simps [simp]:
  "op_lit exact_arith x = x"
  "op_pi exact_arith = pi"
  "op_add exact_arith x y = x + y"
  "op_sub exact_arith x y = x - y"
  "op_mul exact_arith x y = x * y"
  "op_div exact_arith x y = x / y"
  "op_rem exact_arith x y = js_rem x y"
  "op_neg exact_arith x = - x"
  "op_abs exact_arith x = \<bar>x\<bar>"
  "op_sqrt exact_arith x = sqrt x"
  "op_cos exact_arith x = cos x"
  "op_sin exact_arith x = sin x"
  "op_atan exact_arith x = arctan x"
  "op_le exact_arith x y \<longleftrightarrow> x \<le> y"
  "op_lt exact_arith x y \<longleftrightarrow> x < y"
  "op_ge exact_arith x y \<longleftrightarrow> x \<ge> y"
  "op_gt exact_arith x y \<longleftrightarrow> x > y"
  "op_not exact_arith x \<longleftrightarrow> x = 0"
  by (simp_all add: exact_arith_def)

lemma js_torad_exact [simp]: "js_torad exact_arith = torad"
  by (simp add: js_torad_def torad_def)

lemma entry_in_range: "i < length m \<Longrightarrow> entry A m i = m ! i"
  by (simp add: entry_def)

lemma js_canonical_exact: "js_canonical exact_arith (js_of e) = js_of (canonical e)"
  by (simp add: js_canonical_def canonical_def js_of_def Let_def)

lemma js_scale_k_exact:
  "scale_k e dx dy = Inr k \<Longrightarrow> js_scale_k exact_arith (js_of e) dx dy = k"
  by (cases "rx e = 0 \<or> ry e = 0")
    (auto simp add: scale_k_undefined scale_k_defined js_scale_k_def js_of_def
      Let_def power2_eq_square)

lemma js_normalise_exact:
  assumes "normalise e dx dy = Inr e'"
  shows "js_normalise exact_arith (js_of e) dx dy = js_of e'"
proof (cases "dx = 0 \<and> dy = 0")
  case True
  with assms show ?thesis
    by (simp add: normalise_def js_normalise_def js_canonical_exact)
next
  case False
  with assms obtain k where k: "scale_k (canonical e) dx dy = Inr k"
    by (cases "scale_k (canonical e) dx dy") (auto simp add: normalise_def Let_def)
  have jk: "js_scale_k exact_arith (js_of (canonical e)) dx dy = k"
    using k by (rule js_scale_k_exact)
  have e': "e' = (if k > 1 then (canonical e)\<lparr>rx := rx (canonical e) * k,
      ry := ry (canonical e) * k\<rparr> else canonical e)"
    using assms False k by (auto simp add: normalise_def Let_def)
  have "js_normalise exact_arith (js_of e) dx dy =
      (if k > 1 then (js_of (canonical e))\<lparr>obj_rx := obj_rx (js_of (canonical e)) * k,
         obj_ry := obj_ry (js_of (canonical e)) * k\<rparr> else js_of (canonical e))"
    unfolding js_normalise_def Let_def js_canonical_exact jk using False by auto
  also have "\<dots> = js_of e'"
    by (simp add: e' js_of_def)
  finally show ?thesis .
qed

lemma transform_general_denominator:
  assumes "4 \<le> length m" "\<not> D_of (tr_ma e m) \<le> epsilon e"
    "\<not> \<bar>D_of (tr_ma e m) - \<bar>J_of (tr_ma e m) - K_of (tr_ma e m)\<bar>\<bar> \<le> epsilon e"
    "\<not> (\<bar>L_of (tr_ma e m)\<bar> \<le> epsilon e \<and> \<bar>l1_of (tr_ma e m) - K_of (tr_ma e m)\<bar> \<le> epsilon e)"
    "transform e m = Inr e'"
  shows "(if \<bar>L_of (tr_ma e m)\<bar> > \<bar>l1_of (tr_ma e m) - K_of (tr_ma e m)\<bar>
          then L_of (tr_ma e m) else l1_of (tr_ma e m) - K_of (tr_ma e m)) \<noteq> 0"
  using assms
  by (auto simp add: transform_def Let_def l1_of_fold l2_of_fold js_div_def split: if_splits)

lemma js_ma_exact:
  assumes "4 \<le> length m"
  shows "js_ma exact_arith (js_of e) m = tr_ma e m"
proof -
  have "entry exact_arith m 0 = m ! 0" "entry exact_arith m 1 = m ! 1"
    "entry exact_arith m 2 = m ! 2" "entry exact_arith m 3 = m ! 3"
    by (rule entry_in_range, use assms in linarith)+
  then show ?thesis
    by (simp add: js_ma_def tr_ma_def js_of_def Let_def)
qed

lemma js_entries_exact:
  "js_J exact_arith ma = J_of ma" "js_K exact_arith ma = K_of ma"
  "js_L exact_arith ma = L_of ma" "js_D exact_arith ma = D_of ma"
  by (simp_all add: js_J_def js_K_def js_L_def js_D_def J_of_def K_of_def L_of_def D_of_def
      D_arg_def Let_def)

lemma js_transform_exact_unfold:
  assumes "4 \<le> length m"
  shows "js_transform exact_arith (js_of e) m =
     (let ma = tr_ma e m; q = (if \<bar>L_of ma\<bar> > \<bar>l1_of ma - K_of ma\<bar>
                                then (l1_of ma - J_of ma) / L_of ma
                                else L_of ma / (l1_of ma - K_of ma))
      in if D_of ma \<le> epsilon e then
           js_of (e\<lparr>rx := sqrt (JK_of ma), ry := sqrt (JK_of ma), ax := 0\<rparr>)
         else if \<bar>D_of ma - \<bar>J_of ma - K_of ma\<bar>\<bar> \<le> epsilon e then
           js_of (e\<lparr>rx := sqrt (J_of ma), ry := sqrt (K_of ma), ax := 0\<rparr>)
         else if \<bar>L_of ma\<bar> \<le> epsilon e \<and> \<bar>l1_of ma - K_of ma\<bar> \<le> epsilon e then
           js_of (e\<lparr>ax := 0, rx := sqrt (l2_of ma), ry := sqrt (l1_of ma)\<rparr>)
         else if arctan q / torad \<ge> 0 then
           js_of (e\<lparr>ax := arctan q / torad, rx := sqrt (l1_of ma), ry := sqrt (l2_of ma)\<rparr>)
         else
           js_of (e\<lparr>ax := arctan q / torad + 90, rx := sqrt (l2_of ma),
                     ry := sqrt (l1_of ma)\<rparr>))"
  unfolding js_transform_def Let_def js_ma_exact [OF assms] js_entries_exact
  by (simp add: js_of_def l1_of_def l2_of_def JK_of_def)

lemma transform_general_nonzero:
  assumes "4 \<le> length m" "\<not> D_of (tr_ma e m) \<le> epsilon e"
    "\<not> \<bar>D_of (tr_ma e m) - \<bar>J_of (tr_ma e m) - K_of (tr_ma e m)\<bar>\<bar> \<le> epsilon e"
    "\<not> (\<bar>L_of (tr_ma e m)\<bar> \<le> epsilon e \<and> \<bar>l1_of (tr_ma e m) - K_of (tr_ma e m)\<bar> \<le> epsilon e)"
    "(if \<bar>L_of (tr_ma e m)\<bar> > \<bar>l1_of (tr_ma e m) - K_of (tr_ma e m)\<bar>
      then L_of (tr_ma e m) else l1_of (tr_ma e m) - K_of (tr_ma e m)) \<noteq> 0"
    "q = (if \<bar>L_of (tr_ma e m)\<bar> > \<bar>l1_of (tr_ma e m) - K_of (tr_ma e m)\<bar>
          then (l1_of (tr_ma e m) - J_of (tr_ma e m)) / L_of (tr_ma e m)
          else L_of (tr_ma e m) / (l1_of (tr_ma e m) - K_of (tr_ma e m)))"
  shows "transform e m =
           Inr (if arctan q / torad \<ge> 0
                then e\<lparr>ax := arctan q / torad, rx := sqrt (l1_of (tr_ma e m)),
                       ry := sqrt (l2_of (tr_ma e m))\<rparr>
                else e\<lparr>ax := arctan q / torad + 90, rx := sqrt (l2_of (tr_ma e m)),
                       ry := sqrt (l1_of (tr_ma e m))\<rparr>)"
proof (cases "\<bar>L_of (tr_ma e m)\<bar> > \<bar>l1_of (tr_ma e m) - K_of (tr_ma e m)\<bar>")
  case True
  with assms show ?thesis
    by (auto simp add: transform_def Let_def l1_of_fold l2_of_fold)
next
  case False
  with assms show ?thesis
    by (auto simp add: transform_def Let_def l1_of_fold l2_of_fold)
qed

lemma js_transform_exact:
  assumes "transform e m = Inr e'"
  shows "js_transform exact_arith (js_of e) m = js_of e'"
proof -
  let ?ma = "tr_ma e m"
  have len: "4 \<le> length m"
    using assms by (cases "length m < 4") (simp_all add: transform_def)
  note u = js_transform_exact_unfold [OF len, of e]
  consider (a) "D_of ?ma \<le> epsilon e"
    | (b) "\<not> D_of ?ma \<le> epsilon e" "\<bar>D_of ?ma - \<bar>J_of ?ma - K_of ?ma\<bar>\<bar> \<le> epsilon e"
    | (c) "\<not> D_of ?ma \<le> epsilon e" "\<not> \<bar>D_of ?ma - \<bar>J_of ?ma - K_of ?ma\<bar>\<bar> \<le> epsilon e"
          "\<bar>L_of ?ma\<bar> \<le> epsilon e" "\<bar>l1_of ?ma - K_of ?ma\<bar> \<le> epsilon e"
    | (d) "\<not> D_of ?ma \<le> epsilon e" "\<not> \<bar>D_of ?ma - \<bar>J_of ?ma - K_of ?ma\<bar>\<bar> \<le> epsilon e"
          "\<not> (\<bar>L_of ?ma\<bar> \<le> epsilon e \<and> \<bar>l1_of ?ma - K_of ?ma\<bar> \<le> epsilon e)"
    by blast
  then show ?thesis
  proof cases
    case a
    then have "e' = e\<lparr>rx := sqrt (JK_of ?ma), ry := sqrt (JK_of ?ma), ax := 0\<rparr>"
      using assms transform_circle [OF len, of e] by simp
    with a show ?thesis by (simp add: u Let_def)
  next
    case b
    then have "e' = e\<lparr>rx := sqrt (J_of ?ma), ry := sqrt (K_of ?ma), ax := 0\<rparr>"
      using assms transform_diagonal [OF len, of e] by simp
    with b show ?thesis by (simp add: u Let_def)
  next
    case c
    then have "e' = e\<lparr>ax := 0, rx := sqrt (l2_of ?ma), ry := sqrt (l1_of ?ma)\<rparr>"
      using assms transform_exchange [OF len, of e] by simp
    with c show ?thesis by (simp add: u Let_def)
  next
    case d
    define q where "q = (if \<bar>L_of ?ma\<bar> > \<bar>l1_of ?ma - K_of ?ma\<bar>
          then (l1_of ?ma - J_of ?ma) / L_of ?ma
          else L_of ?ma / (l1_of ?ma - K_of ?ma))"
    have nz: "(if \<bar>L_of ?ma\<bar> > \<bar>l1_of ?ma - K_of ?ma\<bar>
          then L_of ?ma else l1_of ?ma - K_of ?ma) \<noteq> 0"
      using len d assms by (rule transform_general_denominator)
    have "transform e m =
           Inr (if arctan q / torad \<ge> 0
                then e\<lparr>ax := arctan q / torad, rx := sqrt (l1_of ?ma), ry := sqrt (l2_of ?ma)\<rparr>
                else e\<lparr>ax := arctan q / torad + 90, rx := sqrt (l2_of ?ma),
                       ry := sqrt (l1_of ?ma)\<rparr>)"
      using len d nz q_def by (rule transform_general_nonzero)
    with assms have "e' = (if arctan q / torad \<ge> 0
                then e\<lparr>ax := arctan q / torad, rx := sqrt (l1_of ?ma), ry := sqrt (l2_of ?ma)\<rparr>
                else e\<lparr>ax := arctan q / torad + 90, rx := sqrt (l2_of ?ma),
                       ry := sqrt (l1_of ?ma)\<rparr>)"
      by simp
    with d show ?thesis
      unfolding u Let_def q_def [symmetric] by auto
  qed
qed

section \<open>The eigenvalues in transform\<close>

text \<open>
  C6. In \<open>transform\<close>, the number \<open>D\<close> (the square root of the product of the two
  sums of squares, which the source takes without leaving the reals) satisfies
  \<open>D\<^sup>2 = (J-K)\<^sup>2 + 4 L\<^sup>2\<close>, and it is the difference \<open>l1 - l2\<close> of the two
  eigenvalues of the symmetric matrix with rows \<open>(J, L)\<close> and \<open>(L, K)\<close>: \<open>l1\<close> and \<open>l2\<close>
  are both roots of its characteristic polynomial
  \<open>x\<^sup>2 - (J + K) x + (J K - L\<^sup>2)\<close>, and \<open>l2\<close> is not above \<open>l1\<close>.
\<close>

theorem D_eigenvalue_difference:
  "js_sqrt (D_arg (tr_ma e m)) = Inr (D_of (tr_ma e m)) \<and>
   (D_of (tr_ma e m))\<^sup>2 = (J_of (tr_ma e m) - K_of (tr_ma e m))\<^sup>2 + 4 * (L_of (tr_ma e m))\<^sup>2 \<and>
   l1_of (tr_ma e m) - l2_of (tr_ma e m) = D_of (tr_ma e m) \<and>
   l2_of (tr_ma e m) \<le> l1_of (tr_ma e m) \<and>
   (l1_of (tr_ma e m))\<^sup>2 - (J_of (tr_ma e m) + K_of (tr_ma e m)) * l1_of (tr_ma e m)
     + (J_of (tr_ma e m) * K_of (tr_ma e m) - (L_of (tr_ma e m))\<^sup>2) = 0 \<and>
   (l2_of (tr_ma e m))\<^sup>2 - (J_of (tr_ma e m) + K_of (tr_ma e m)) * l2_of (tr_ma e m)
     + (J_of (tr_ma e m) * K_of (tr_ma e m) - (L_of (tr_ma e m))\<^sup>2) = 0"
proof -
  let ?ma = "tr_ma e m"
  have sq: "(D_of ?ma)\<^sup>2 = (J_of ?ma - K_of ?ma)\<^sup>2 + 4 * (L_of ?ma)\<^sup>2"
    using D_arg_nonneg [of ?ma] by (simp add: D_of_def D_arg_eq [symmetric])
  have gap: "l1_of ?ma - l2_of ?ma = D_of ?ma"
    by (simp add: l1_of_def l2_of_def)
  have ord: "l2_of ?ma \<le> l1_of ?ma"
    using gap D_of_nonneg [of ?ma] by linarith
  have "(l1_of ?ma)\<^sup>2 - (J_of ?ma + K_of ?ma) * l1_of ?ma + (J_of ?ma * K_of ?ma - (L_of ?ma)\<^sup>2)
        = ((D_of ?ma)\<^sup>2 - ((J_of ?ma - K_of ?ma)\<^sup>2 + 4 * (L_of ?ma)\<^sup>2)) / 4"
    by (simp add: l1_of_def JK_of_def power2_eq_square algebra_simps)
  then have r1: "(l1_of ?ma)\<^sup>2 - (J_of ?ma + K_of ?ma) * l1_of ?ma
                   + (J_of ?ma * K_of ?ma - (L_of ?ma)\<^sup>2) = 0"
    using sq by simp
  have "(l2_of ?ma)\<^sup>2 - (J_of ?ma + K_of ?ma) * l2_of ?ma + (J_of ?ma * K_of ?ma - (L_of ?ma)\<^sup>2)
        = ((D_of ?ma)\<^sup>2 - ((J_of ?ma - K_of ?ma)\<^sup>2 + 4 * (L_of ?ma)\<^sup>2)) / 4"
    by (simp add: l2_of_def JK_of_def power2_eq_square algebra_simps)
  then have r2: "(l2_of ?ma)\<^sup>2 - (J_of ?ma + K_of ?ma) * l2_of ?ma
                   + (J_of ?ma * K_of ?ma - (L_of ?ma)\<^sup>2) = 0"
    using sq by simp
  show ?thesis
    using sq gap ord r1 r2 by simp
qed

text \<open>
  C9. Every square root taken in \<open>transform\<close> has a non-negative argument, whatever
  the ellipse and the matrix: \<open>J\<close>, \<open>K\<close>, their mean \<open>JK\<close>, the product under the root
  of \<open>D\<close>, and both eigenvalues, the smaller one \<open>l2 = JK - D/2\<close> because \<open>D\<close> is at
  most \<open>J + K\<close>. So \<open>transform\<close> never takes the root of a negative number.
\<close>

theorem transform_sqrt_arguments:
  "0 \<le> J_of (tr_ma e m) \<and> 0 \<le> K_of (tr_ma e m) \<and>
   0 \<le> (J_of (tr_ma e m) + K_of (tr_ma e m)) / 2 \<and>
   0 \<le> D_arg (tr_ma e m) \<and>
   D_of (tr_ma e m) \<le> J_of (tr_ma e m) + K_of (tr_ma e m) \<and>
   0 \<le> l2_of (tr_ma e m) \<and> 0 \<le> l1_of (tr_ma e m) \<and>
   transform e m \<noteq> Inl SqrtOfNegative"
  using J_of_nonneg [of "tr_ma e m"] K_of_nonneg [of "tr_ma e m"]
    D_arg_nonneg [of "tr_ma e m"] D_of_le [of "tr_ma e m"]
    l2_of_nonneg [of "tr_ma e m"] l1_of_nonneg [of "tr_ma e m"]
    transform_no_sqrt_failure [of e m]
  by simp

section \<open>Idempotence of the canonical form over the exact reals\<close>

text \<open>
  Over the exact reals \<open>normalise\<close> with no vector is idempotent: the call returns an
  ellipse, and the same call on that ellipse returns it unchanged. This is a fact of the
  first transcription only: it rests on the sum \<open>ax % 180 + 180\<close> of a negative remainder
  being below 180, which double precision does not keep for a remainder such as
  \<open>-2\<^sup>-\<^sup>7\<^sup>0\<close>.
\<close>

lemma normalise_idempotent_exact:
  "\<exists>e1. normalise e 0 0 = Inr e1 \<and> normalise e1 0 0 = Inr e1"
  by (simp add: normalise_no_vector canonical_idem)

section \<open>The receiver and its tolerance\<close>

text \<open>
  C8. For every arithmetic, every store, every receiver and all arguments, a call of
  \<open>transform\<close> or of \<open>normalise\<close> returns the reference of its receiver, changes no other
  object of the store, and leaves the \<open>epsilon\<close> of the receiver as it was.
\<close>

theorem receiver_and_epsilon_kept:
  "snd (method_transform A h this m) = this \<and>
   (\<forall>p. p \<noteq> this \<longrightarrow> fst (method_transform A h this m) p = h p) \<and>
   obj_epsilon (fst (method_transform A h this m) this) = obj_epsilon (h this) \<and>
   snd (method_normalise A h this dx dy) = this \<and>
   (\<forall>p. p \<noteq> this \<longrightarrow> fst (method_normalise A h this dx dy) p = h p) \<and>
   obj_epsilon (fst (method_normalise A h this dx dy) this) = obj_epsilon (h this)"
  by (simp add: method_transform_def method_normalise_def js_transform_epsilon
      js_normalise_epsilon)

text \<open>
  The unit circle at reference 0 under the identity matrix, and normalised with the
  vector \<open>(2,0)\<close>, in the arithmetic of the exact reals; the object at reference 1 stays.
\<close>

theorem receiver_and_epsilon_kept_witness:
  "snd (method_transform exact_arith
          (\<lambda>p. \<lparr>obj_rx = 1, obj_ry = 1, obj_ax = 0, obj_epsilon = 1 / 10 ^ 7\<rparr>) 0 [1, 0, 0, 1]) = 0 \<and>
   (1::nat) \<noteq> 0 \<and>
   fst (method_transform exact_arith
          (\<lambda>p. \<lparr>obj_rx = 1, obj_ry = 1, obj_ax = 0, obj_epsilon = 1 / 10 ^ 7\<rparr>) 0 [1, 0, 0, 1]) 1
     = \<lparr>obj_rx = 1, obj_ry = 1, obj_ax = 0, obj_epsilon = 1 / 10 ^ 7\<rparr> \<and>
   obj_epsilon (fst (method_transform exact_arith
          (\<lambda>p. \<lparr>obj_rx = 1, obj_ry = 1, obj_ax = 0, obj_epsilon = 1 / 10 ^ 7\<rparr>) 0 [1, 0, 0, 1]) 0)
     = 1 / 10 ^ 7 \<and>
   snd (method_normalise exact_arith
          (\<lambda>p. \<lparr>obj_rx = 1, obj_ry = 1, obj_ax = 0, obj_epsilon = 1 / 10 ^ 7\<rparr>) 0 2 0) = 0 \<and>
   fst (method_normalise exact_arith
          (\<lambda>p. \<lparr>obj_rx = 1, obj_ry = 1, obj_ax = 0, obj_epsilon = 1 / 10 ^ 7\<rparr>) 0 2 0) 1
     = \<lparr>obj_rx = 1, obj_ry = 1, obj_ax = 0, obj_epsilon = 1 / 10 ^ 7\<rparr> \<and>
   obj_epsilon (fst (method_normalise exact_arith
          (\<lambda>p. \<lparr>obj_rx = 1, obj_ry = 1, obj_ax = 0, obj_epsilon = 1 / 10 ^ 7\<rparr>) 0 2 0) 0)
     = 1 / 10 ^ 7"
  using receiver_and_epsilon_kept
    [of exact_arith "\<lambda>p. \<lparr>obj_rx = 1, obj_ry = 1, obj_ax = 0, obj_epsilon = 1 / 10 ^ 7\<rparr>"
        0 "[1, 0, 0, 1]" 2 0]
  by simp

section \<open>The invariant of transform over the exact reals\<close>

text \<open>
  Over the exact reals, for every ellipse whose tolerance is not negative and every
  matrix of four entries, \<open>transform\<close> returns an ellipse with \<open>rx \<ge> 0\<close> and \<open>ry \<ge> 0\<close>; when
  the near-circle branch is taken (\<open>D \<le> epsilon\<close>) the result has \<open>ax = 0\<close> and \<open>rx = ry\<close>;
  otherwise its \<open>ax\<close> lies in \<open>[0, 90)\<close>. This is a fact of the first transcription only:
  the radii are roots of the eigenvalues, and in double precision the smaller eigenvalue
  \<open>l2 = JK - D/2\<close> of a singular matrix can round below zero.
\<close>

lemma transform_invariant_exact:
  assumes "4 \<le> length m" "0 \<le> epsilon e"
  shows "\<exists>e'. transform e m = Inr e' \<and> 0 \<le> rx e' \<and> 0 \<le> ry e' \<and>
           (D_of (tr_ma e m) \<le> epsilon e \<longrightarrow> ax e' = 0 \<and> rx e' = ry e') \<and>
           (\<not> D_of (tr_ma e m) \<le> epsilon e \<longrightarrow> 0 \<le> ax e' \<and> ax e' < 90)"
proof -
  let ?ma = "tr_ma e m"
  note nn = J_of_nonneg [of ?ma] K_of_nonneg [of ?ma] JK_of_nonneg [of ?ma]
    l1_of_nonneg [of ?ma] l2_of_nonneg [of ?ma]
  consider (a) "D_of ?ma \<le> epsilon e"
    | (b) "\<not> D_of ?ma \<le> epsilon e" "\<bar>D_of ?ma - \<bar>J_of ?ma - K_of ?ma\<bar>\<bar> \<le> epsilon e"
    | (c) "\<not> D_of ?ma \<le> epsilon e" "\<not> \<bar>D_of ?ma - \<bar>J_of ?ma - K_of ?ma\<bar>\<bar> \<le> epsilon e"
          "\<bar>L_of ?ma\<bar> \<le> epsilon e" "\<bar>l1_of ?ma - K_of ?ma\<bar> \<le> epsilon e"
    | (d) "\<not> D_of ?ma \<le> epsilon e" "\<not> \<bar>D_of ?ma - \<bar>J_of ?ma - K_of ?ma\<bar>\<bar> \<le> epsilon e"
          "\<not> (\<bar>L_of ?ma\<bar> \<le> epsilon e \<and> \<bar>l1_of ?ma - K_of ?ma\<bar> \<le> epsilon e)"
    by blast
  then show ?thesis
  proof cases
    case a
    with nn show ?thesis by (simp add: transform_circle [OF assms(1)])
  next
    case b
    with nn show ?thesis by (simp add: transform_diagonal [OF assms(1)])
  next
    case c
    with nn show ?thesis by (simp add: transform_exchange [OF assms(1)])
  next
    case d
    define q where "q = (if \<bar>L_of ?ma\<bar> > \<bar>l1_of ?ma - K_of ?ma\<bar>
          then (l1_of ?ma - J_of ?ma) / L_of ?ma
          else L_of ?ma / (l1_of ?ma - K_of ?ma))"
    have t: "transform e m =
           Inr (if arctan q / torad \<ge> 0
                then e\<lparr>ax := arctan q / torad, rx := sqrt (l1_of ?ma), ry := sqrt (l2_of ?ma)\<rparr>
                else e\<lparr>ax := arctan q / torad + 90, rx := sqrt (l2_of ?ma),
                       ry := sqrt (l1_of ?ma)\<rparr>)"
      using assms d q_def by (rule transform_general)
    show ?thesis
      using nn d(1) arctan_degrees [of q] by (simp add: t)
  qed
qed

text \<open>
  The unit circle held at 90 degrees under the singular matrix with all entries 1: over
  the exact reals the smaller eigenvalue is exactly 0, and the result is the degenerate
  ellipse of radii 2 and 0 at 45 degrees.
\<close>

lemma transform_singular_exact:
  "l2_of (tr_ma \<lparr>rx = 1, ry = 1, ax = 90, epsilon = 1 / 10 ^ 7\<rparr> [1, 1, 1, 1]) = 0 \<and>
   transform \<lparr>rx = 1, ry = 1, ax = 90, epsilon = 1 / 10 ^ 7\<rparr> [1, 1, 1, 1]
     = Inr \<lparr>rx = 2, ry = 0, ax = 45, epsilon = 1 / 10 ^ 7\<rparr> \<and>
   isDegenerate \<lparr>rx = 2, ry = 0, ax = 45, epsilon = 1 / 10 ^ 7\<rparr>"
proof -
  have q: "90 * torad = pi / 2"
    by (simp add: torad_def)
  have ma: "tr_ma \<lparr>rx = 1, ry = 1, ax = 90, epsilon = 1 / 10 ^ 7\<rparr> [1, 1, 1, 1] = [1, 1, - 1, - 1]"
    by (simp add: tr_ma_def q)
  have l2: "l2_of [1, 1, - 1, - 1] = 0"
    by (simp add: l2_of_def JK_of_def J_of_def K_of_def D_of_def D_arg_def)
  have a: "arctan 1 / torad = 45"
    by (simp add: arctan_one torad_def)
  have "transform \<lparr>rx = 1, ry = 1, ax = 90, epsilon = 1 / 10 ^ 7\<rparr> [1, 1, 1, 1]
     = Inr \<lparr>rx = 2, ry = 0, ax = 45, epsilon = 1 / 10 ^ 7\<rparr>"
    using a by (simp add: transform_def Let_def q tr_ma_def D_arg_def J_of_def K_of_def L_of_def
        js_sqrt_def)
  with ma l2 show ?thesis
    by (simp add: isDegenerate_def)
qed

section \<open>Where the operations divide by zero\<close>

text \<open>
  C3, amended. \<open>transform\<close> reaches no division by zero for any ellipse whose tolerance is
  not negative: whatever numbers \<open>L\<close>, \<open>l1 - K\<close> and \<open>l1 - J\<close> the code has computed, once
  the sub-case gated by \<open>epsilon\<close> is excluded, the denominator chosen in the angle
  formula exceeds \<open>epsilon\<close> in absolute value and the division is not by zero.
  \<open>normalise\<close> returns an ellipse when the vector is zero or both radii of the canonical
  form are other than zero, which holds whenever both radii of the receiver are other
  than zero; with a non-zero vector and a zero radius in the canonical form it divides
  by zero. The constructor and \<open>isDegenerate\<close> divide nowhere.
\<close>

theorem operations_defined:
  "(0 \<le> epsilon e \<longrightarrow> transform e m \<noteq> Inl DivisionByZero) \<and>
   (0 \<le> eps \<and> \<not> (\<bar>L\<bar> \<le> eps \<and> \<bar>d\<bar> \<le> eps) \<longrightarrow>
      eps < \<bar>if \<bar>L\<bar> > \<bar>d\<bar> then L else d\<bar> \<and>
      (if \<bar>L\<bar> > \<bar>d\<bar> then js_div n L else js_div L d) \<noteq> Inl DivisionByZero) \<and>
   ((dx = 0 \<and> dy = 0) \<or> (rx (canonical e) \<noteq> 0 \<and> ry (canonical e) \<noteq> 0) \<longrightarrow>
      (\<exists>e'. normalise e dx dy = Inr e')) \<and>
   ((dx \<noteq> 0 \<or> dy \<noteq> 0) \<and> (rx (canonical e) = 0 \<or> ry (canonical e) = 0) \<longrightarrow>
      normalise e dx dy = Inl DivisionByZero) \<and>
   (rx e \<noteq> 0 \<and> ry e \<noteq> 0 \<longrightarrow> rx (canonical e) \<noteq> 0 \<and> ry (canonical e) \<noteq> 0) \<and>
   (\<not> (\<bar>L_of (tr_ma e m)\<bar> \<le> epsilon e \<and>
       \<bar>l1_of (tr_ma e m) - K_of (tr_ma e m)\<bar> \<le> epsilon e) \<longrightarrow>
      epsilon e < \<bar>if \<bar>L_of (tr_ma e m)\<bar> > \<bar>l1_of (tr_ma e m) - K_of (tr_ma e m)\<bar>
                    then L_of (tr_ma e m) else l1_of (tr_ma e m) - K_of (tr_ma e m)\<bar>)"
proof (intro conjI impI)
  assume "0 \<le> epsilon e"
  then show "transform e m \<noteq> Inl DivisionByZero"
    using transform_total [of m e] by (cases "4 \<le> length m") (auto simp add: transform_def)
next
  assume g: "0 \<le> eps \<and> \<not> (\<bar>L\<bar> \<le> eps \<and> \<bar>d\<bar> \<le> eps)"
  then show c: "eps < \<bar>if \<bar>L\<bar> > \<bar>d\<bar> then L else d\<bar>"
    by (cases "\<bar>L\<bar> > \<bar>d\<bar>") auto
  with g have "(if \<bar>L\<bar> > \<bar>d\<bar> then L else d) \<noteq> 0"
    by auto
  then show "(if \<bar>L\<bar> > \<bar>d\<bar> then js_div n L else js_div L d) \<noteq> Inl DivisionByZero"
    by (cases "\<bar>L\<bar> > \<bar>d\<bar>") simp_all
next
  assume "\<not> (\<bar>L_of (tr_ma e m)\<bar> \<le> epsilon e \<and>
       \<bar>l1_of (tr_ma e m) - K_of (tr_ma e m)\<bar> \<le> epsilon e)"
  then show "epsilon e < \<bar>if \<bar>L_of (tr_ma e m)\<bar> > \<bar>l1_of (tr_ma e m) - K_of (tr_ma e m)\<bar>
                    then L_of (tr_ma e m) else l1_of (tr_ma e m) - K_of (tr_ma e m)\<bar>"
    by (cases "\<bar>L_of (tr_ma e m)\<bar> > \<bar>l1_of (tr_ma e m) - K_of (tr_ma e m)\<bar>") auto
next
  assume a: "(dx = 0 \<and> dy = 0) \<or> (rx (canonical e) \<noteq> 0 \<and> ry (canonical e) \<noteq> 0)"
  show "\<exists>e'. normalise e dx dy = Inr e'"
  proof (cases "dx = 0 \<and> dy = 0")
    case True
    then show ?thesis by (simp add: normalise_no_vector)
  next
    case False
    with a normalise_defined [of e dx dy] show ?thesis by auto
  qed
next
  assume "(dx \<noteq> 0 \<or> dy \<noteq> 0) \<and> (rx (canonical e) = 0 \<or> ry (canonical e) = 0)"
  then show "normalise e dx dy = Inl DivisionByZero" by (simp add: normalise_undefined)
next
  assume "rx e \<noteq> 0 \<and> ry e \<noteq> 0"
  then show "rx (canonical e) \<noteq> 0" "ry (canonical e) \<noteq> 0"
    using canonical_radii_nonzero [of e] by simp_all
qed

text \<open>
  The unit circle under the identity matrix and normalised with the vector \<open>(0,3)\<close>; the
  ellipse of radii 4 and 0 normalised with the vector \<open>(1,1)\<close>; the unit circle under the
  matrix with columns \<open>(2,1)\<close> and \<open>(1,2)\<close>, where both candidates for the denominator
  are 4.
\<close>

theorem operations_defined_witness:
  "0 \<le> epsilon \<lparr>rx = 1, ry = 1, ax = 0, epsilon = 1 / 10 ^ 7\<rparr> \<and>
   transform \<lparr>rx = 1, ry = 1, ax = 0, epsilon = 1 / 10 ^ 7\<rparr> [1, 0, 0, 1]
     = Inr \<lparr>rx = 1, ry = 1, ax = 0, epsilon = 1 / 10 ^ 7\<rparr> \<and>
   (0::real) \<le> 1 / 10 ^ 7 \<and> \<not> \<bar>4::real\<bar> \<le> 1 / 10 ^ 7 \<and>
   js_div 4 4 = Inr 1 \<and>
   rx \<lparr>rx = 1, ry = 1, ax = 0, epsilon = 1 / 10 ^ 7\<rparr> \<noteq> 0 \<and>
   ry \<lparr>rx = 1, ry = 1, ax = 0, epsilon = 1 / 10 ^ 7\<rparr> \<noteq> 0 \<and>
   rx (canonical \<lparr>rx = 1, ry = 1, ax = 0, epsilon = 1 / 10 ^ 7\<rparr>) \<noteq> 0 \<and>
   ry (canonical \<lparr>rx = 1, ry = 1, ax = 0, epsilon = 1 / 10 ^ 7\<rparr>) \<noteq> 0 \<and>
   normalise \<lparr>rx = 1, ry = 1, ax = 0, epsilon = 1 / 10 ^ 7\<rparr> 0 3
     = Inr \<lparr>rx = 3, ry = 3, ax = 0, epsilon = 1 / 10 ^ 7\<rparr> \<and>
   ry (canonical \<lparr>rx = 4, ry = 0, ax = 0, epsilon = 1 / 10 ^ 7\<rparr>) = 0 \<and>
   normalise \<lparr>rx = 4, ry = 0, ax = 0, epsilon = 1 / 10 ^ 7\<rparr> 1 1 = Inl DivisionByZero \<and>
   L_of (tr_ma \<lparr>rx = 1, ry = 1, ax = 0, epsilon = 1 / 10 ^ 7\<rparr> [2, 1, 1, 2]) = 4 \<and>
   l1_of (tr_ma \<lparr>rx = 1, ry = 1, ax = 0, epsilon = 1 / 10 ^ 7\<rparr> [2, 1, 1, 2])
     - K_of (tr_ma \<lparr>rx = 1, ry = 1, ax = 0, epsilon = 1 / 10 ^ 7\<rparr> [2, 1, 1, 2]) = 4 \<and>
   epsilon \<lparr>rx = 1, ry = 1, ax = 0, epsilon = 1 / 10 ^ 7\<rparr> < 4"
proof -
  let ?e = "\<lparr>rx = 1, ry = 1, ax = 0, epsilon = 1 / 10 ^ 7\<rparr>"
  let ?z = "\<lparr>rx = 4, ry = 0, ax = 0, epsilon = 1 / 10 ^ 7\<rparr>"
  have t: "transform ?e [1, 0, 0, 1] = Inr ?e"
    by (simp add: transform_def Let_def D_arg_def J_of_def K_of_def tr_ma_def js_sqrt_def)
  have c: "canonical ?e = ?e"
    by (simp add: canonical_def Let_def)
  have n: "normalise ?e 0 3 = Inr \<lparr>rx = 3, ry = 3, ax = 0, epsilon = 1 / 10 ^ 7\<rparr>"
    by (simp add: normalise_def canonical_def js_rem_def scale_k_def Let_def)
  have z: "canonical ?z = ?z"
    by (simp add: canonical_def js_rem_def Let_def)
  have l: "L_of (tr_ma ?e [2, 1, 1, 2]) = 4"
    by (simp add: L_of_def tr_ma_def)
  have d: "l1_of (tr_ma ?e [2, 1, 1, 2]) - K_of (tr_ma ?e [2, 1, 1, 2]) = 4"
    by (simp add: l1_of_def JK_of_def J_of_def K_of_def D_of_def D_arg_def tr_ma_def)
  show ?thesis
    using operations_defined [of ?e "[1, 0, 0, 1]" "1 / 10 ^ 7" 4 4 4 0 3]
      operations_defined [of ?z "[1, 0, 0, 1]" "1 / 10 ^ 7" 4 4 4 1 1]
      operations_defined [of ?e "[2, 1, 1, 2]" "1 / 10 ^ 7" 4 4 4 0 3] t c n z l d
    by simp
qed

text \<open>
  C3 as stated fails: with radii 3 and 0 at angle 0 and the vector \<open>(0,1)\<close>, \<open>normalise\<close>
  divides \<open>1\<close> by \<open>ry = 0\<close>.
\<close>

theorem normalise_zero_radius_counterexample:
  "normalise \<lparr>rx = 3, ry = 0, ax = 0, epsilon = 1 / 10 ^ 7\<rparr> 0 1 = Inl DivisionByZero"
  by (simp add: normalise_def canonical_def scale_k_def js_rem_def Let_def)

section \<open>The invariant of normalise\<close>




section \<open>The scaling step never shrinks\<close>

text \<open>
  C10, amended. For every ellipse whose canonical form has both radii other than zero and
  every vector other than \<open>(0,0)\<close>, the scaling step does not shrink the ellipse: the
  final radii are at least the canonical ones, they are the canonical ones times \<open>k\<close>
  when \<open>k > 1\<close>, and the canonical ones when \<open>k \<le> 1\<close>.
\<close>

theorem normalise_scaling_grows:
  assumes "dx \<noteq> 0 \<or> dy \<noteq> 0" "rx (canonical e) \<noteq> 0" "ry (canonical e) \<noteq> 0"
  shows "\<exists>k e'. scale_k (canonical e) dx dy = Inr k \<and> normalise e dx dy = Inr e' \<and>
           rx (canonical e) \<le> rx e' \<and> ry (canonical e) \<le> ry e' \<and>
           (1 < k \<longrightarrow> rx e' = rx (canonical e) * k \<and> ry e' = ry (canonical e) * k) \<and>
           (k \<le> 1 \<longrightarrow> rx e' = rx (canonical e) \<and> ry e' = ry (canonical e))"
proof -
  let ?c = "canonical e"
  obtain k where k: "scale_k ?c dx dy = Inr k" "0 \<le> k"
    and n: "normalise e dx dy =
             Inr (if k > 1 then ?c\<lparr>rx := rx ?c * k, ry := ry ?c * k\<rparr> else ?c)"
    using normalise_defined [OF assms(2,3,1)] by blast
  have r: "0 \<le> rx ?c" "0 \<le> ry ?c"
    using canonical_radii_nonneg [of e] by simp_all
  show ?thesis
  proof (cases "k > 1")
    case True
    then have "rx ?c \<le> rx ?c * k" "ry ?c \<le> ry ?c * k"
      using r by (simp_all add: radius_grows)
    with True n k(1) show ?thesis by simp
  next
    case False
    with n k(1) show ?thesis by simp
  qed
qed

text \<open>
  Radii 5 and 3 at angle 0: the vector \<open>(10,0)\<close> has \<open>k = 2\<close> and doubles the radii, the
  vector \<open>(0,3)\<close> has \<open>k = 1\<close> and leaves them.
\<close>

theorem normalise_scaling_grows_witness:
  "(10::real) \<noteq> 0 \<and>
   rx (canonical \<lparr>rx = 5, ry = 3, ax = 0, epsilon = 1 / 10 ^ 7\<rparr>) = 5 \<and>
   ry (canonical \<lparr>rx = 5, ry = 3, ax = 0, epsilon = 1 / 10 ^ 7\<rparr>) = 3 \<and>
   scale_k (canonical \<lparr>rx = 5, ry = 3, ax = 0, epsilon = 1 / 10 ^ 7\<rparr>) 10 0 = Inr 2 \<and>
   normalise \<lparr>rx = 5, ry = 3, ax = 0, epsilon = 1 / 10 ^ 7\<rparr> 10 0
     = Inr \<lparr>rx = 10, ry = 6, ax = 0, epsilon = 1 / 10 ^ 7\<rparr> \<and>
   scale_k (canonical \<lparr>rx = 5, ry = 3, ax = 0, epsilon = 1 / 10 ^ 7\<rparr>) 0 3 = Inr 1 \<and>
   normalise \<lparr>rx = 5, ry = 3, ax = 0, epsilon = 1 / 10 ^ 7\<rparr> 0 3
     = Inr \<lparr>rx = 5, ry = 3, ax = 0, epsilon = 1 / 10 ^ 7\<rparr>"
proof -
  let ?e = "\<lparr>rx = 5, ry = 3, ax = 0, epsilon = 1 / 10 ^ 7\<rparr>"
  have c: "canonical ?e = ?e"
    by (simp add: canonical_def js_rem_def Let_def)
  have k1: "scale_k ?e 10 0 = Inr 2"
    by (simp add: scale_k_def Let_def)
  have k2: "scale_k ?e 0 3 = Inr 1"
    by (simp add: scale_k_def Let_def)
  have n1: "normalise ?e 10 0 = Inr \<lparr>rx = 10, ry = 6, ax = 0, epsilon = 1 / 10 ^ 7\<rparr>"
    by (simp add: normalise_def canonical_def js_rem_def scale_k_def Let_def)
  have n2: "normalise ?e 0 3 = Inr ?e"
    by (simp add: normalise_def canonical_def js_rem_def scale_k_def Let_def)
  show ?thesis
    using normalise_scaling_grows [of 10 0 ?e] normalise_scaling_grows [of 0 3 ?e] c k1 k2 n1 n2
    by simp
qed

text \<open>
  C10 as stated fails: radii 2 and 0 at 90 degrees have the canonical radii 0 and 2 at
  angle 0, and with the vector \<open>(1,0)\<close> the scaling step divides \<open>1\<close> by \<open>rx = 0\<close>: the
  final radii are no real numbers, so they are not at least the canonical ones.
\<close>

theorem normalise_exchanged_zero_radius_counterexample:
  "rx (canonical \<lparr>rx = 2, ry = 0, ax = 90, epsilon = 1 / 10 ^ 7\<rparr>) = 0 \<and>
   ry (canonical \<lparr>rx = 2, ry = 0, ax = 90, epsilon = 1 / 10 ^ 7\<rparr>) = 2 \<and>
   normalise \<lparr>rx = 2, ry = 0, ax = 90, epsilon = 1 / 10 ^ 7\<rparr> 1 0 = Inl DivisionByZero"
  by (simp add: normalise_def canonical_def scale_k_def js_rem_def Let_def)

end
